theory Spec2Isabelle
  imports Complex_Main "HOL-Library.FSet" "HOL-Library.AList"
begin

section \<open>Modelling conventions\<close>

text \<open>
  The three JavaScript classes of the repository are embedded as records with explicit
  state passing: a method that mutates \<open>this\<close> takes the object and returns the updated
  one, together with its return value when it has one.

  \<^item> JavaScript numbers that carry measurements (positions, offsets, round-trip times) are
    reals: rounding, infinities and NaN of IEEE doubles are outside the model, and so is
    the result of a division by 0 (in HOL it is 0). Ticks,
    sequence ids and the timestamps of \<open>Date.now()\<close> are integers, counters are naturals.
  \<^item> Every read of the clock (\<open>Date.now()\<close>, \<open>getLocalTime()\<close>) is a parameter of the
    method that reads it.
  \<^item> \<open>console.log\<close>, \<open>console.warn\<close> and \<open>console.error\<close> change no state and are
    left out; \<open>sendToServer\<close> of the prediction client only logs.
  \<^item> Field names that occur in several records are written qualified
    (\<open>buffered.tick\<close>, \<open>state.tick\<close>).
\<close>

section \<open>Client-side prediction: class ClientPrediction\<close>

record input =
  moveX :: real
  moveY :: real

text \<open>An entry of the input buffer: \<open>{ tick, input, timestamp }\<close>.\<close>

record buffered =
  tick :: int
  input :: input
  timestamp :: int

text \<open>
  A simulation state. The predicted state of a fresh client has no \<open>tick\<close> property,
  a snapshot has one, and \<open>rollbackAndReplay\<close> copies the whole snapshot into the
  predicted state (\<open>{ ...serverSnapshot }\<close>): the property is optional, \<open>None\<close> when absent.
\<close>

record state =
  x :: real
  y :: real
  velocityX :: real
  velocityY :: real
  tick :: "int option"

record ClientPrediction =
  predictedState :: state
  serverState :: state
  inputBuffer :: "buffered list"
  clientTick :: int
  rtt :: int
  reconciliationThreshold :: real

definition new_ClientPrediction :: ClientPrediction where
  "new_ClientPrediction =
     \<lparr>predictedState = \<lparr>x = 0, y = 0, velocityX = 0, velocityY = 0, tick = None\<rparr>,
      serverState = \<lparr>x = 0, y = 0, velocityX = 0, velocityY = 0, tick = Some 0\<rparr>,
      inputBuffer = [],
      clientTick = 0,
      rtt = 5,
      reconciliationThreshold = 1 / 10\<rparr>"

definition updateState :: "state \<Rightarrow> input \<Rightarrow> state" where
  "updateState st inp =
     (let speed = 5;
          st1 = st\<lparr>velocityX := moveX inp * speed\<rparr>;
          st2 = st1\<lparr>velocityY := moveY inp * speed\<rparr>;
          st3 = st2\<lparr>x := x st2 + velocityX st2\<rparr>
      in st3\<lparr>y := y st3 + velocityY st3\<rparr>)"

definition applyInput :: "int \<Rightarrow> input \<Rightarrow> ClientPrediction \<Rightarrow> ClientPrediction" where
  "applyInput now inp c =
     (let c1 = c\<lparr>inputBuffer := inputBuffer c @
                  [\<lparr>buffered.tick = clientTick c, input = inp, timestamp = now\<rparr>]\<rparr>;
          c2 = c1\<lparr>predictedState := updateState (predictedState c1) inp\<rparr>
      in c2\<lparr>clientTick := clientTick c2 + 1\<rparr>)"

text \<open>
  The comparison \<open>buffered.tick > snapshot.tick\<close>: against a missing tick
  (\<open>undefined\<close>) the comparison is false in JavaScript.
\<close>

definition tickAfter :: "int \<Rightarrow> int option \<Rightarrow> bool" where
  "tickAfter t s = (case s of None \<Rightarrow> False | Some T \<Rightarrow> T < t)"

definition calculateDivergence :: "state \<Rightarrow> state \<Rightarrow> real" where
  "calculateDivergence predicted server =
     (let dx = x predicted - x server;
          dy = y predicted - y server
      in sqrt (dx * dx + dy * dy))"

text \<open>
  The local constant \<open>blendFactor\<close> of \<open>smoothCorrection\<close>. With a threshold of 0 the
  quotient is Infinity or NaN in JavaScript, which the reals do not have: what is proved
  about the value of the blend is for a nonzero threshold.
\<close>

definition blendFactor :: "real \<Rightarrow> real \<Rightarrow> real" where
  "blendFactor divergence threshold = min (divergence / threshold) 1 * (1 / 10)"

definition smoothCorrection :: "real \<Rightarrow> ClientPrediction \<Rightarrow> ClientPrediction" where
  "smoothCorrection divergence c =
     (let b = blendFactor divergence (reconciliationThreshold c);
          p1 = (predictedState c)\<lparr>x := x (predictedState c) +
                 (x (serverState c) - x (predictedState c)) * b\<rparr>;
          p2 = p1\<lparr>y := y p1 + (y (serverState c) - y p1) * b\<rparr>
      in c\<lparr>predictedState := p2\<rparr>)"

definition rollbackAndReplay :: "state \<Rightarrow> ClientPrediction \<Rightarrow> ClientPrediction" where
  "rollbackAndReplay serverSnapshot c =
     (let c1 = c\<lparr>predictedState := serverSnapshot\<rparr>;
          unacknowledgedInputs =
            filter (\<lambda>b. tickAfter (buffered.tick b) (tick serverSnapshot)) (inputBuffer c1)
      in c1\<lparr>predictedState :=
              foldl updateState (predictedState c1) (map input unacknowledgedInputs)\<rparr>)"

definition onServerSnapshot :: "state \<Rightarrow> ClientPrediction \<Rightarrow> ClientPrediction" where
  "onServerSnapshot snapshot c =
     (let c1 = c\<lparr>serverState := snapshot\<rparr>;
          divergence = calculateDivergence (predictedState c1) (serverState c1);
          c2 = (if divergence > reconciliationThreshold c1
                then rollbackAndReplay snapshot c1
                else smoothCorrection divergence c1)
      in c2\<lparr>inputBuffer :=
              filter (\<lambda>b. tickAfter (buffered.tick b) (tick snapshot)) (inputBuffer c2)\<rparr>)"

definition getVisualState :: "ClientPrediction \<Rightarrow> state" where
  "getVisualState c = predictedState c"

text \<open>A run of \<open>applyInput\<close> calls, each with the clock value it reads.\<close>

definition applyInputs :: "(int \<times> input) list \<Rightarrow> ClientPrediction \<Rightarrow> ClientPrediction" where
  "applyInputs calls c = foldl (\<lambda>c' (now, inp). applyInput now inp c') c calls"

text \<open>
  The order \<open>applyInput\<close> keeps in the input buffer: ticks strictly increase along the
  buffer and stay below \<open>clientTick\<close>.
\<close>

definition bufferOrdered :: "ClientPrediction \<Rightarrow> bool" where
  "bufferOrdered c =
     (sorted_wrt (<) (map buffered.tick (inputBuffer c)) \<and>
      list_all (\<lambda>b. buffered.tick b < clientTick c) (inputBuffer c))"

section \<open>Reliable delivery: class NetworkProtocol\<close>

datatype MessageType =
    CLIENT_HELLO | CLIENT_INPUT | TIME_SYNC_REQ | CLIENT_ACK | CLIENT_DISCONNECT
  | SERVER_HELLO | SERVER_SNAPSHOT | TIME_SYNC_RES | SERVER_ACK | SERVER_KICK

text \<open>The numeric code each message type stands for.\<close>

fun messageCode :: "MessageType \<Rightarrow> nat" where
  "messageCode CLIENT_HELLO = 0x01"
| "messageCode CLIENT_INPUT = 0x02"
| "messageCode TIME_SYNC_REQ = 0x03"
| "messageCode CLIENT_ACK = 0x04"
| "messageCode CLIENT_DISCONNECT = 0x05"
| "messageCode SERVER_HELLO = 0x10"
| "messageCode SERVER_SNAPSHOT = 0x11"
| "messageCode TIME_SYNC_RES = 0x12"
| "messageCode SERVER_ACK = 0x13"
| "messageCode SERVER_KICK = 0x14"

record 'p packet =
  type :: MessageType
  sequenceId :: int
  payload :: 'p
  requiresAck :: bool
  timestamp :: int

text \<open>The packet of \<open>createAck\<close>: it has neither payload nor \<open>requiresAck\<close>.\<close>

record ack =
  type :: MessageType
  sequenceId :: int
  timestamp :: int

text \<open>A value of the map \<open>pendingAcks\<close>: \<open>{ packet, timestamp, retries }\<close>.\<close>

record 'p pending =
  packet :: "'p packet"
  timestamp :: int
  retries :: nat

text \<open>
  What \<open>processPacket\<close> returns for a packet it accepts: \<open>{ payload }\<close> or
  \<open>{ payload, ackPacket }\<close>. For a duplicate it returns \<open>null\<close>, here \<open>None\<close>.
\<close>

record 'p processed =
  payload :: 'p
  ackPacket :: "ack option"

text \<open>
  \<open>pendingAcks\<close> is a JavaScript \<open>Map\<close>: keys are unique and iteration follows the
  order of insertion. It is an association list in that order; \<open>Map.set\<close> is
  \<open>AList.update\<close> (an existing key keeps its place, a new one goes last) and
  \<open>Map.delete\<close> is \<open>AList.delete\<close>. \<open>receivedSequences\<close> is a \<open>Set\<close>, here a
  finite set.
\<close>

record 'p NetworkProtocol =
  nextSequenceId :: int
  pendingAcks :: "(int \<times> 'p pending) list"
  receivedSequences :: "int fset"
  maxRetries :: nat
  ackTimeout :: int
  maxPacketSize :: nat
  bytesSent :: nat
  bytesReceived :: nat
  packetsLost :: nat

definition new_NetworkProtocol :: "'p NetworkProtocol" where
  "new_NetworkProtocol =
     \<lparr>nextSequenceId = 0,
      pendingAcks = [],
      receivedSequences = {||},
      maxRetries = 3,
      ackTimeout = 100,
      maxPacketSize = 1400,
      bytesSent = 0,
      bytesReceived = 0,
      packetsLost = 0\<rparr>"

definition createAck :: "int \<Rightarrow> int \<Rightarrow> ack" where
  "createAck now sid = \<lparr>ack.type = CLIENT_ACK, sequenceId = sid, timestamp = now\<rparr>"

definition createPacket ::
  "int \<Rightarrow> MessageType \<Rightarrow> 'p \<Rightarrow> bool \<Rightarrow> 'p NetworkProtocol \<Rightarrow> 'p packet \<times> 'p NetworkProtocol" where
  "createPacket now ty pl req s =
     (let pk = \<lparr>packet.type = ty, sequenceId = nextSequenceId s, payload = pl,
                 requiresAck = req, timestamp = now\<rparr>;
          s1 = s\<lparr>nextSequenceId := nextSequenceId s + 1\<rparr>;
          s2 = (if req
                then s1\<lparr>pendingAcks := AList.update (packet.sequenceId pk)
                         \<lparr>packet = pk, timestamp = packet.timestamp pk, retries = 0\<rparr>
                         (pendingAcks s1)\<rparr>
                else s1)
      in (pk, s2))"

text \<open>\<open>createInput\<close>: an input packet always requires an acknowledgment.\<close>

definition createInput ::
  "int \<Rightarrow> 'p \<Rightarrow> 'p NetworkProtocol \<Rightarrow> 'p packet \<times> 'p NetworkProtocol" where
  "createInput now pl s = createPacket now CLIENT_INPUT pl True s"

text \<open>
  The clean-up of \<open>processPacket\<close>: the ids sorted ascending, the first 500 deleted.
\<close>

definition cleanOldSequences :: "int fset \<Rightarrow> int fset" where
  "cleanOldSequences seen =
     (let sorted = sorted_list_of_fset seen
      in fold (\<lambda>i acc. acc |-| {|i|}) (take 500 sorted) seen)"

definition processPacket ::
  "int \<Rightarrow> 'p packet \<Rightarrow> 'p NetworkProtocol \<Rightarrow> 'p processed option \<times> 'p NetworkProtocol" where
  "processPacket now pk s =
     (if packet.sequenceId pk |\<in>| receivedSequences s then (None, s)
      else
        let s1 = s\<lparr>receivedSequences := finsert (packet.sequenceId pk) (receivedSequences s)\<rparr>;
            s2 = (if fcard (receivedSequences s1) > 1000
                  then s1\<lparr>receivedSequences := cleanOldSequences (receivedSequences s1)\<rparr>
                  else s1)
        in if requiresAck pk
           then (Some \<lparr>payload = packet.payload pk,
                       ackPacket = Some (createAck now (packet.sequenceId pk))\<rparr>, s2)
           else (Some \<lparr>payload = packet.payload pk, ackPacket = None\<rparr>, s2))"

definition processAck :: "int \<Rightarrow> 'p NetworkProtocol \<Rightarrow> 'p NetworkProtocol" where
  "processAck sid s =
     (if sid \<in> fst ` set (pendingAcks s)
      then s\<lparr>pendingAcks := AList.delete sid (pendingAcks s)\<rparr>
      else s)"

text \<open>
  The loop of \<open>getRetransmissions\<close> over the entries of \<open>pendingAcks\<close>, in the map's
  order. Each entry is kept with its retry counted and its timestamp reset (its packet
  goes to \<open>toRetransmit\<close>), dropped (one more lost packet), or kept as it is. The result
  is the entries that remain, \<open>toRetransmit\<close>, and the number of packets given up.
\<close>

fun retransmitLoop ::
  "int \<Rightarrow> int \<Rightarrow> nat \<Rightarrow> (int \<times> 'p pending) list
     \<Rightarrow> (int \<times> 'p pending) list \<times> 'p packet list \<times> nat" where
  "retransmitLoop now tmo maxR [] = ([], [], 0)"
| "retransmitLoop now tmo maxR ((seqId, pend) # rest) =
     (let (kept, toRetransmit, lost) = retransmitLoop now tmo maxR rest;
          elapsed = now - pending.timestamp pend
      in if elapsed > tmo then
           if retries pend < maxR
           then ((seqId, pend\<lparr>retries := retries pend + 1, pending.timestamp := now\<rparr>) # kept,
                 packet pend # toRetransmit, lost)
           else (kept, toRetransmit, lost + 1)
         else ((seqId, pend) # kept, toRetransmit, lost))"

definition getRetransmissions ::
  "int \<Rightarrow> 'p NetworkProtocol \<Rightarrow> 'p packet list \<times> 'p NetworkProtocol" where
  "getRetransmissions now s =
     (let (kept, toRetransmit, lost) =
            retransmitLoop now (ackTimeout s) (maxRetries s) (pendingAcks s)
      in (toRetransmit, s\<lparr>pendingAcks := kept, packetsLost := packetsLost s + lost\<rparr>))"

text \<open>
  Successive sweeps, one per clock value of the list: the packets each sweep returned,
  and the protocol state after the last.
\<close>

fun sweeps :: "int list \<Rightarrow> 'p NetworkProtocol \<Rightarrow> 'p packet list list \<times> 'p NetworkProtocol" where
  "sweeps [] s = ([], s)"
| "sweeps (now # later) s =
     (let (out, s1) = getRetransmissions now s;
          (outs, s2) = sweeps later s1
      in (out # outs, s2))"

text \<open>
  Every sweep comes more than \<open>tmo\<close> after the time \<open>t0\<close> and after the sweep before it.
\<close>

fun spaced :: "int \<Rightarrow> int \<Rightarrow> int list \<Rightarrow> bool" where
  "spaced tmo t0 [] = True"
| "spaced tmo t0 (t # ts) = (t - t0 > tmo \<and> spaced tmo t ts)"

text \<open>
  The invariant of \<open>pendingAcks\<close> that \<open>createPacket\<close> establishes: keys are unique (it is
  a \<open>Map\<close>) and every entry is filed under the sequence id of its packet.
\<close>

definition wellFormed :: "(int \<times> 'p pending) list \<Rightarrow> bool" where
  "wellFormed entries =
     (distinct (map fst entries) \<and>
      list_all (\<lambda>(k, e). packet.sequenceId (packet e) = k) entries)"

text \<open>The packets with sequence id \<open>k\<close> among those one sweep returned.\<close>

definition returned :: "int \<Rightarrow> 'p packet list \<Rightarrow> 'p packet list" where
  "returned k out = filter (\<lambda>q. packet.sequenceId q = k) out"

section \<open>Clock synchronisation: class TimeSync\<close>

record config =
  tickRate :: "real option"
  syncInterval :: "real option"
  rttSamples :: "real option"

text \<open>
  \<open>config.field || dflt\<close>: the default stands in for a missing field and for 0.
\<close>

definition orDefault :: "real option \<Rightarrow> real \<Rightarrow> real" where
  "orDefault v dflt = (case v of None \<Rightarrow> dflt | Some r \<Rightarrow> if r = 0 then dflt else r)"

record TimeSync =
  tickRate :: real
  tickDuration :: real
  syncInterval :: real
  rttSamples :: real
  serverTick :: int
  clockOffset :: real
  rttHistory :: "real list"
  smoothedRtt :: real
  clockDrift :: real
  lastSyncTime :: real
  lastDriftCheckTime :: real
  lastDriftOffset :: real
  syncCount :: nat
  jitter :: real

definition new_TimeSync :: "real \<Rightarrow> config \<Rightarrow> TimeSync" where
  "new_TimeSync now cfg =
     (let rate = orDefault (config.tickRate cfg) 60
      in \<lparr>tickRate = rate,
          tickDuration = 1000 / rate,
          syncInterval = orDefault (config.syncInterval cfg) 1000,
          rttSamples = orDefault (config.rttSamples cfg) 10,
          serverTick = 0,
          clockOffset = 0,
          rttHistory = [],
          smoothedRtt = 0,
          clockDrift = 0,
          lastSyncTime = 0,
          lastDriftCheckTime = now,
          lastDriftOffset = 0,
          syncCount = 0,
          jitter = 0\<rparr>)"

record syncRequest =
  type :: string
  clientSendTime :: real
  sequenceId :: nat

record syncResponse =
  type :: string
  clientSendTime :: real
  serverReceiveTime :: real
  serverSendTime :: real
  serverTick :: int
  sequenceId :: nat

definition createSyncRequest :: "real \<Rightarrow> TimeSync \<Rightarrow> syncRequest \<times> TimeSync" where
  "createSyncRequest now t =
     (let clientTimestamp = now
      in (\<lparr>syncRequest.type = ''time_sync_req'', clientSendTime = clientTimestamp,
           sequenceId = syncCount t\<rparr>,
          t\<lparr>syncCount := syncCount t + 1\<rparr>))"

definition handleSyncRequest :: "real \<Rightarrow> syncRequest \<Rightarrow> int \<Rightarrow> TimeSync \<Rightarrow> syncResponse" where
  "handleSyncRequest now request tick' t =
     (let serverTime = now
      in \<lparr>syncResponse.type = ''time_sync_res'',
          clientSendTime = syncRequest.clientSendTime request,
          serverReceiveTime = serverTime,
          serverSendTime = serverTime,
          serverTick = tick',
          sequenceId = syncRequest.sequenceId request\<rparr>)"

definition updateRttStats :: "real \<Rightarrow> TimeSync \<Rightarrow> TimeSync" where
  "updateRttStats rtt' t =
     (let h1 = rttHistory t @ [rtt'];
          h2 = (if real (length h1) > rttSamples t then tl h1 else h1);
          alpha = 0.125;
          sm = (if smoothedRtt t = 0 then rtt'
                else alpha * rtt' + (1 - alpha) * smoothedRtt t);
          meanRtt = foldl (\<lambda>a b. a + b) 0 h2 / real (length h2);
          variance = foldl (\<lambda>sum val. sum + \<bar>val - meanRtt\<bar>) 0 h2 / real (length h2)
      in t\<lparr>rttHistory := h2, smoothedRtt := sm, jitter := variance\<rparr>)"

definition updateClockOffset :: "real \<Rightarrow> TimeSync \<Rightarrow> TimeSync" where
  "updateClockOffset newOffset t =
     (if clockOffset t = 0 then t\<lparr>clockOffset := newOffset\<rparr>
      else
        let delta = newOffset - clockOffset t;
            threshold = 50;
            blend = (if \<bar>delta\<bar> > threshold then 0.5 else 0.1)
        in t\<lparr>clockOffset := clockOffset t + delta * blend\<rparr>)"

definition updateClockDrift :: "real \<Rightarrow> real \<Rightarrow> TimeSync \<Rightarrow> TimeSync" where
  "updateClockDrift now currentOffset t =
     (let elapsed = (now - lastDriftCheckTime t) / 1000
      in if elapsed > 10
         then let offsetDelta = currentOffset - lastDriftOffset t
              in t\<lparr>clockDrift := offsetDelta / elapsed,
                   lastDriftCheckTime := now,
                   lastDriftOffset := currentOffset\<rparr>
         else t)"

text \<open>
  \<open>processSyncResponse\<close> reads the clock twice: \<open>getLocalTime()\<close> on entry (\<open>now\<close>) and
  \<open>Date.now()\<close> inside \<open>updateClockDrift\<close> (\<open>nowDrift\<close>).
\<close>

definition processSyncResponse :: "real \<Rightarrow> real \<Rightarrow> syncResponse \<Rightarrow> TimeSync \<Rightarrow> TimeSync" where
  "processSyncResponse now nowDrift response t =
     (let clientReceiveTime = now;
          rtt' = clientReceiveTime - syncResponse.clientSendTime response;
          oneWayLatency = rtt' / 2;
          estimatedServerTime = serverSendTime response + oneWayLatency;
          newOffset = clientReceiveTime - estimatedServerTime;
          t1 = updateRttStats rtt' t;
          t2 = updateClockOffset newOffset t1;
          t3 = t2\<lparr>TimeSync.serverTick := syncResponse.serverTick response,
                  lastSyncTime := clientReceiveTime\<rparr>
      in updateClockDrift nowDrift newOffset t3)"

text \<open>The raw offset sample \<open>newOffset\<close> that \<open>processSyncResponse\<close> computes.\<close>

definition rawOffset :: "real \<Rightarrow> syncResponse \<Rightarrow> real" where
  "rawOffset now response =
     now - (serverSendTime response + (now - syncResponse.clientSendTime response) / 2)"

definition calculateQuality :: "TimeSync \<Rightarrow> real" where
  "calculateQuality t =
     (let score = 1;
          score1 = (if smoothedRtt t > 200 then score * 0.3
                    else if smoothedRtt t > 100 then score * 0.6
                    else if smoothedRtt t > 50 then score * 0.8
                    else score)
      in if jitter t > 50 then score1 * 0.3
         else if jitter t > 20 then score1 * 0.6
         else if jitter t > 10 then score1 * 0.8
         else score1)"

definition isSyncReliable :: "TimeSync \<Rightarrow> bool" where
  "isSyncReliable t = (calculateQuality t > 0.5 \<and> syncCount t > 3)"

text \<open>
  A history of calls on one \<open>TimeSync\<close> object: requests created and responses
  processed, each with the clock values it reads.
\<close>

datatype syncCall = Request real | Response real real syncResponse

fun syncStep :: "TimeSync \<Rightarrow> syncCall \<Rightarrow> TimeSync" where
  "syncStep t (Request now) = snd (createSyncRequest now t)"
| "syncStep t (Response now nowDrift response) = processSyncResponse now nowDrift response t"

definition runSync :: "syncCall list \<Rightarrow> TimeSync \<Rightarrow> TimeSync" where
  "runSync calls t = foldl syncStep t calls"

fun isRequest :: "syncCall \<Rightarrow> bool" where
  "isRequest (Request now) = True"
| "isRequest (Response now nowDrift response) = False"

definition requestsCreated :: "syncCall list \<Rightarrow> nat" where
  "requestsCreated calls = length (filter isRequest calls)"

definition responsesProcessed :: "syncCall list \<Rightarrow> nat" where
  "responsesProcessed calls = length (filter (\<lambda>c. \<not> isRequest c) calls)"

section \<open>Scenarios\<close>

text \<open>
  The inputs and snapshots of the demonstration at the end of the prediction client's
  file, and variations of them used below to run the model on concrete values.
\<close>

definition right :: input where "right = \<lparr>moveX = 1, moveY = 0\<rparr>"

definition still :: input where "still = \<lparr>moveX = 0, moveY = 0\<rparr>"

text \<open>A fresh client after \<open>applyInput\<close> at ticks 0 and 1, as in the demonstration.\<close>

definition twoInputs :: ClientPrediction where
  "twoInputs = applyInputs [(1000, right), (1016, right)] new_ClientPrediction"

text \<open>The same client with \<open>reconciliationThreshold\<close> set to 5, and a snapshot for tick 0 at x = 9.5.\<close>

definition blendClient :: ClientPrediction where
  "blendClient = twoInputs\<lparr>reconciliationThreshold := 5\<rparr>"

definition blendSnapshot :: state where
  "blendSnapshot = \<lparr>x = 19 / 2, y = 0, velocityX = 5, velocityY = 0, tick = Some 0\<rparr>"

text \<open>A snapshot for tick 1 that agrees with the prediction, and an older one for tick 0.\<close>

definition exactSnapshot1 :: state where
  "exactSnapshot1 = \<lparr>x = 10, y = 0, velocityX = 5, velocityY = 0, tick = Some 1\<rparr>"

definition staleSnapshot0 :: state where
  "staleSnapshot0 = \<lparr>x = 5, y = 0, velocityX = 5, velocityY = 0, tick = Some 0\<rparr>"

definition confirmedClient :: ClientPrediction where
  "confirmedClient = onServerSnapshot exactSnapshot1 twoInputs"

text \<open>
  A client that moved right at tick 0 and stood still at tick 1, after a snapshot for tick 0
  that agrees with it; and a second snapshot for tick 0 that is off by 0.05.
\<close>

definition rightThenStill :: ClientPrediction where
  "rightThenStill = applyInputs [(1000, right), (1016, still)] new_ClientPrediction"

definition exactSnapshot0 :: state where
  "exactSnapshot0 = \<lparr>x = 5, y = 0, velocityX = 5, velocityY = 0, tick = Some 0\<rparr>"

definition prunedClient :: ClientPrediction where
  "prunedClient = onServerSnapshot exactSnapshot0 rightThenStill"

definition nearSnapshot0 :: state where
  "nearSnapshot0 = \<lparr>x = 101 / 20, y = 0, velocityX = 5, velocityY = 0, tick = Some 0\<rparr>"

text \<open>
  The first input packet of the protocol demonstration, sent by a fresh sender at time
  1000, and a fresh receiver after it has processed that packet once.
\<close>

definition demoPayload :: buffered where
  "demoPayload = \<lparr>buffered.tick = 0, input = right, timestamp = 1000\<rparr>"

definition demoPacket :: "buffered packet" where
  "demoPacket = fst (createInput 1000 demoPayload new_NetworkProtocol)"

definition demoSender :: "buffered NetworkProtocol" where
  "demoSender = snd (createInput 1000 demoPayload new_NetworkProtocol)"

definition demoReceiver :: "buffered NetworkProtocol" where
  "demoReceiver = snd (processPacket 1020 demoPacket new_NetworkProtocol)"

text \<open>
  The configuration of the time-sync demonstration, four requests with no response, and
  two complete exchanges: in the first the clocks agree (raw offset 0), in the second the
  raw offset is 30 ms.
\<close>

definition demoConfig :: config where
  "demoConfig = \<lparr>config.tickRate = Some 60, syncInterval = None, rttSamples = None\<rparr>"

definition fourRequests :: "syncCall list" where
  "fourRequests = [Request 0, Request 500, Request 1000, Request 1500]"

definition inSyncResponse :: syncResponse where
  "inSyncResponse = \<lparr>syncResponse.type = ''time_sync_res'', clientSendTime = 1000,
     serverReceiveTime = 1010, serverSendTime = 1010, serverTick = 3, sequenceId = 0\<rparr>"

definition shiftedResponse :: syncResponse where
  "shiftedResponse = \<lparr>syncResponse.type = ''time_sync_res'', clientSendTime = 2000,
     serverReceiveTime = 1980, serverSendTime = 1980, serverTick = 63, sequenceId = 1\<rparr>"

definition twoSyncs :: "syncCall list" where
  "twoSyncs = [Request 1000, Response 1020 1020 inSyncResponse,
               Request 2000, Response 2020 2020 shiftedResponse]"

section \<open>Theorems about ClientPrediction\<close>

lemma predictedState_applyInput:
  "predictedState (applyInput now inp c) = updateState (predictedState c) inp"
  by (simp add: applyInput_def Let_def)

text \<open>
  Claim C3 (pure prediction correctness): for every finite sequence of inputs passed to
  \<open>applyInput\<close>, with no snapshot in between, the predicted state after the calls is
  \<open>updateState\<close> folded over the inputs, in order, from the predicted state the client
  started with; for a fresh client that is the initial predicted state.
\<close>

theorem pure_prediction_fold:
  "predictedState (applyInputs calls c) = foldl updateState (predictedState c) (map snd calls)"
proof (induction calls arbitrary: c)
  case Nil
  show ?case by (simp add: applyInputs_def)
next
  case (Cons a calls)
  obtain now inp where a: "a = (now, inp)" by (cases a)
  have "applyInputs (a # calls) c = applyInputs calls (applyInput now inp c)"
    by (simp add: applyInputs_def a)
  then show ?case
    using Cons.IH [of "applyInput now inp c"] by (simp add: a predictedState_applyInput)
qed

subsection \<open>What \<open>onServerSnapshot\<close> does to each field\<close>

lemma inputBuffer_onServerSnapshot:
  "inputBuffer (onServerSnapshot snapshot c) =
     filter (\<lambda>b. tickAfter (buffered.tick b) (tick snapshot)) (inputBuffer c)"
  by (simp add: onServerSnapshot_def rollbackAndReplay_def smoothCorrection_def Let_def)

lemma serverState_onServerSnapshot:
  "serverState (onServerSnapshot snapshot c) = snapshot"
  by (simp add: onServerSnapshot_def rollbackAndReplay_def smoothCorrection_def Let_def)

lemma predictedState_onServerSnapshot_rollback:
  assumes "reconciliationThreshold c < calculateDivergence (predictedState c) snapshot"
  shows "predictedState (onServerSnapshot snapshot c) =
    foldl updateState snapshot
      (map input (filter (\<lambda>b. tickAfter (buffered.tick b) (tick snapshot)) (inputBuffer c)))"
  using assms by (simp add: onServerSnapshot_def rollbackAndReplay_def Let_def)

lemma predictedState_onServerSnapshot_blend:
  assumes "calculateDivergence (predictedState c) snapshot \<le> reconciliationThreshold c"
  shows "predictedState (onServerSnapshot snapshot c) =
    (predictedState c)\<lparr>
       x := x (predictedState c) + (x snapshot - x (predictedState c)) *
              blendFactor (calculateDivergence (predictedState c) snapshot) (reconciliationThreshold c),
       y := y (predictedState c) + (y snapshot - y (predictedState c)) *
              blendFactor (calculateDivergence (predictedState c) snapshot) (reconciliationThreshold c)\<rparr>"
  using assms by (simp add: onServerSnapshot_def smoothCorrection_def Let_def)

lemma onServerSnapshot_blend_eq:
  assumes "calculateDivergence (predictedState c) snapshot \<le> reconciliationThreshold c"
  shows "onServerSnapshot snapshot c =
    c\<lparr>serverState := snapshot,
      predictedState := (predictedState c)\<lparr>
       x := x (predictedState c) + (x snapshot - x (predictedState c)) *
              blendFactor (calculateDivergence (predictedState c) snapshot) (reconciliationThreshold c),
       y := y (predictedState c) + (y snapshot - y (predictedState c)) *
              blendFactor (calculateDivergence (predictedState c) snapshot) (reconciliationThreshold c)\<rparr>,
      inputBuffer := filter (\<lambda>b. tickAfter (buffered.tick b) (tick snapshot)) (inputBuffer c)\<rparr>"
  using assms by (simp add: onServerSnapshot_def smoothCorrection_def Let_def)

lemma calculateDivergence_same_y:
  "y p = y s \<Longrightarrow> calculateDivergence p s = \<bar>x p - x s\<bar>"
  by (simp add: calculateDivergence_def Let_def)

lemma sorted_filter_ticks:
  "sorted_wrt (<) (map buffered.tick buf) \<Longrightarrow> sorted_wrt (<) (map buffered.tick (filter P buf))"
  by (induction buf) auto

text \<open>Every client reached from a fresh one has its buffer in increasing tick order.\<close>

lemma bufferOrdered_new: "bufferOrdered new_ClientPrediction"
  by (simp add: bufferOrdered_def new_ClientPrediction_def)

lemma bufferOrdered_applyInput:
  "bufferOrdered c \<Longrightarrow> bufferOrdered (applyInput now inp c)"
  by (auto simp: bufferOrdered_def applyInput_def Let_def sorted_wrt_append list_all_iff)

lemma bufferOrdered_onServerSnapshot:
  "bufferOrdered c \<Longrightarrow> bufferOrdered (onServerSnapshot snapshot c)"
proof -
  assume o: "bufferOrdered c"
  have t: "clientTick (onServerSnapshot snapshot c) = clientTick c"
    by (simp add: onServerSnapshot_def rollbackAndReplay_def smoothCorrection_def Let_def)
  from o show ?thesis
    by (auto simp: bufferOrdered_def t inputBuffer_onServerSnapshot sorted_filter_ticks list_all_iff)
qed

subsection \<open>The scenarios, evaluated\<close>

lemma twoInputs_eval:
  "twoInputs =
     \<lparr>predictedState = \<lparr>x = 10, y = 0, velocityX = 5, velocityY = 0, tick = None\<rparr>,
      serverState = \<lparr>x = 0, y = 0, velocityX = 0, velocityY = 0, tick = Some 0\<rparr>,
      inputBuffer = [\<lparr>buffered.tick = 0, input = right, timestamp = 1000\<rparr>,
                     \<lparr>buffered.tick = 1, input = right, timestamp = 1016\<rparr>],
      clientTick = 2, rtt = 5, reconciliationThreshold = 1 / 10\<rparr>"
  by (simp add: twoInputs_def applyInputs_def applyInput_def updateState_def
      new_ClientPrediction_def right_def Let_def)

lemma blend_divergence:
  "calculateDivergence (predictedState blendClient) blendSnapshot = 1 / 2"
  by (simp add: calculateDivergence_same_y blendClient_def twoInputs_eval blendSnapshot_def)

lemma rightThenStill_eval:
  "rightThenStill =
     \<lparr>predictedState = \<lparr>x = 5, y = 0, velocityX = 0, velocityY = 0, tick = None\<rparr>,
      serverState = \<lparr>x = 0, y = 0, velocityX = 0, velocityY = 0, tick = Some 0\<rparr>,
      inputBuffer = [\<lparr>buffered.tick = 0, input = right, timestamp = 1000\<rparr>,
                     \<lparr>buffered.tick = 1, input = still, timestamp = 1016\<rparr>],
      clientTick = 2, rtt = 5, reconciliationThreshold = 1 / 10\<rparr>"
  by (simp add: rightThenStill_def applyInputs_def applyInput_def updateState_def
      new_ClientPrediction_def right_def still_def Let_def)

lemma prunedClient_eval:
  "prunedClient =
     \<lparr>predictedState = \<lparr>x = 5, y = 0, velocityX = 0, velocityY = 0, tick = None\<rparr>,
      serverState = exactSnapshot0,
      inputBuffer = [\<lparr>buffered.tick = 1, input = still, timestamp = 1016\<rparr>],
      clientTick = 2, rtt = 5, reconciliationThreshold = 1 / 10\<rparr>"
proof -
  have d: "calculateDivergence (predictedState rightThenStill) exactSnapshot0 = 0"
    by (simp add: calculateDivergence_same_y rightThenStill_eval exactSnapshot0_def)
  have le: "calculateDivergence (predictedState rightThenStill) exactSnapshot0
              \<le> reconciliationThreshold rightThenStill"
    by (simp add: d) (simp add: rightThenStill_eval)
  show ?thesis
    unfolding prunedClient_def onServerSnapshot_blend_eq [OF le] d
    by (simp add: rightThenStill_eval exactSnapshot0_def blendFactor_def tickAfter_def)
qed

lemma confirmedClient_eval:
  "confirmedClient =
     \<lparr>predictedState = \<lparr>x = 10, y = 0, velocityX = 5, velocityY = 0, tick = None\<rparr>,
      serverState = exactSnapshot1,
      inputBuffer = [],
      clientTick = 2, rtt = 5, reconciliationThreshold = 1 / 10\<rparr>"
proof -
  have d: "calculateDivergence (predictedState twoInputs) exactSnapshot1 = 0"
    by (simp add: calculateDivergence_same_y twoInputs_eval exactSnapshot1_def)
  have le: "calculateDivergence (predictedState twoInputs) exactSnapshot1
              \<le> reconciliationThreshold twoInputs"
    by (simp add: d) (simp add: twoInputs_eval)
  show ?thesis
    unfolding confirmedClient_def onServerSnapshot_blend_eq [OF le] d
    by (simp add: twoInputs_eval exactSnapshot1_def blendFactor_def tickAfter_def)
qed

subsection \<open>Rollback and replay\<close>

text \<open>
  Claim C1 (rollback correctness), as amended. When the divergence between the predicted
  state and a snapshot with tick \<open>T\<close> exceeds \<open>reconciliationThreshold\<close>, the predicted
  state after \<open>onServerSnapshot\<close> is \<open>updateState\<close> folded, in buffer order, over the
  buffered inputs with tick greater than \<open>T\<close>, starting from the snapshot: it does not
  depend on the predicted state before the call. A buffer in increasing tick order (as
  \<open>applyInput\<close> fills it) is replayed in tick order. When the divergence is within the
  threshold the predicted state is blended instead and does depend on the old one.
\<close>

theorem rollback_replay_fold:
  assumes "state.tick snapshot = Some T"
    and "reconciliationThreshold c < calculateDivergence (predictedState c) snapshot"
  shows "predictedState (onServerSnapshot snapshot c) =
           foldl updateState snapshot
             (map input (filter (\<lambda>b. T < buffered.tick b) (inputBuffer c))) \<and>
         (sorted_wrt (<) (map buffered.tick (inputBuffer c)) \<longrightarrow>
           sorted_wrt (<) (map buffered.tick (filter (\<lambda>b. T < buffered.tick b) (inputBuffer c))))"
  using assms
  by (simp add: predictedState_onServerSnapshot_rollback tickAfter_def sorted_filter_ticks)

theorem rollback_replay_fold_witness:
  "state.tick staleSnapshot0 = Some 0 \<and>
   reconciliationThreshold twoInputs < calculateDivergence (predictedState twoInputs) staleSnapshot0 \<and>
   predictedState (onServerSnapshot staleSnapshot0 twoInputs) =
     \<lparr>x = 10, y = 0, velocityX = 5, velocityY = 0, tick = Some 0\<rparr>"
proof -
  have t: "state.tick staleSnapshot0 = Some 0" by (simp add: staleSnapshot0_def)
  have d: "calculateDivergence (predictedState twoInputs) staleSnapshot0 = 5"
    by (simp add: calculateDivergence_same_y twoInputs_eval staleSnapshot0_def)
  have gt: "reconciliationThreshold twoInputs
              < calculateDivergence (predictedState twoInputs) staleSnapshot0"
    by (simp add: d) (simp add: twoInputs_eval)
  have "predictedState (onServerSnapshot staleSnapshot0 twoInputs) =
     \<lparr>x = 10, y = 0, velocityX = 5, velocityY = 0, tick = Some 0\<rparr>"
    using rollback_replay_fold [OF t gt]
    by (simp add: twoInputs_eval staleSnapshot0_def updateState_def right_def Let_def)
  with t gt show ?thesis by simp
qed

text \<open>
  The claim without the condition on the divergence fails: the buffer holds the one input
  of tick 1, the snapshot for tick 0 is 0.05 away from the prediction, and the predicted
  state is blended (x = 5.0025) where the fold from the snapshot gives x = 5.05.
\<close>

theorem rollback_counterexample:
  "state.tick nearSnapshot0 = Some 0 \<and>
   map buffered.tick (inputBuffer prunedClient) = [0 + 1] \<and>
   predictedState (onServerSnapshot nearSnapshot0 prunedClient) \<noteq>
     foldl updateState nearSnapshot0 (map input (inputBuffer prunedClient))"
proof -
  have d: "calculateDivergence (predictedState prunedClient) nearSnapshot0 = 1 / 20"
    by (simp add: calculateDivergence_same_y prunedClient_eval nearSnapshot0_def)
  have le: "calculateDivergence (predictedState prunedClient) nearSnapshot0
              \<le> reconciliationThreshold prunedClient"
    by (simp add: d) (simp add: prunedClient_eval)
  have "x (predictedState (onServerSnapshot nearSnapshot0 prunedClient)) = 2001 / 400"
    unfolding predictedState_onServerSnapshot_blend [OF le] d
    by (simp add: prunedClient_eval nearSnapshot0_def blendFactor_def)
  moreover have "x (foldl updateState nearSnapshot0 (map input (inputBuffer prunedClient)))
      = 101 / 20"
    by (simp add: prunedClient_eval nearSnapshot0_def updateState_def still_def Let_def)
  ultimately have "predictedState (onServerSnapshot nearSnapshot0 prunedClient) \<noteq>
     foldl updateState nearSnapshot0 (map input (inputBuffer prunedClient))"
    by auto
  then show ?thesis
    by (simp add: prunedClient_eval nearSnapshot0_def)
qed

subsection \<open>Snapshots older than the last one\<close>

text \<open>
  Claim C2 (stale-snapshot rejection), as amended. \<open>onServerSnapshot\<close> has no guard
  against old snapshots: a snapshot whose tick is less than the tick of the stored
  \<open>serverState\<close> is processed like any other. \<open>serverState\<close> becomes the snapshot, so it
  changes, and the predicted state is reconciled against it: rolled back to the snapshot
  and replayed when the divergence exceeds the threshold, blended toward it otherwise
  (for a nonzero threshold, by which the blend divides).
\<close>

theorem stale_snapshot_applied:
  assumes "state.tick snapshot = Some T"
    and "state.tick (serverState c) = Some T'"
    and "T < T'"
    and "reconciliationThreshold c \<noteq> 0"
  shows "serverState (onServerSnapshot snapshot c) = snapshot \<and>
         serverState (onServerSnapshot snapshot c) \<noteq> serverState c \<and>
         predictedState (onServerSnapshot snapshot c) =
           (if reconciliationThreshold c < calculateDivergence (predictedState c) snapshot
            then foldl updateState snapshot
                   (map input (filter (\<lambda>b. T < buffered.tick b) (inputBuffer c)))
            else (predictedState c)\<lparr>
               x := x (predictedState c) + (x snapshot - x (predictedState c)) *
                      blendFactor (calculateDivergence (predictedState c) snapshot)
                        (reconciliationThreshold c),
               y := y (predictedState c) + (y snapshot - y (predictedState c)) *
                      blendFactor (calculateDivergence (predictedState c) snapshot)
                        (reconciliationThreshold c)\<rparr>)"
proof -
  have "serverState c \<noteq> snapshot" using assms by auto
  then show ?thesis
    using assms(1)
    by (simp add: serverState_onServerSnapshot predictedState_onServerSnapshot_rollback
        predictedState_onServerSnapshot_blend tickAfter_def)
qed

theorem stale_snapshot_applied_witness:
  "state.tick staleSnapshot0 = Some 0 \<and>
   state.tick (serverState confirmedClient) = Some 1 \<and>
   (0::int) < 1 \<and>
   reconciliationThreshold confirmedClient \<noteq> 0 \<and>
   serverState (onServerSnapshot staleSnapshot0 confirmedClient) = staleSnapshot0 \<and>
   x (predictedState (onServerSnapshot staleSnapshot0 confirmedClient)) = 5"
proof -
  have t: "state.tick staleSnapshot0 = Some 0" by (simp add: staleSnapshot0_def)
  have t': "state.tick (serverState confirmedClient) = Some 1"
    by (simp add: confirmedClient_eval exactSnapshot1_def)
  have nz: "reconciliationThreshold confirmedClient \<noteq> 0"
    by (simp add: confirmedClient_eval)
  have d: "calculateDivergence (predictedState confirmedClient) staleSnapshot0 = 5"
    by (simp add: calculateDivergence_same_y confirmedClient_eval staleSnapshot0_def)
  have gt: "reconciliationThreshold confirmedClient
              < calculateDivergence (predictedState confirmedClient) staleSnapshot0"
    by (simp add: d) (simp add: confirmedClient_eval)
  have "serverState (onServerSnapshot staleSnapshot0 confirmedClient) = staleSnapshot0 \<and>
        x (predictedState (onServerSnapshot staleSnapshot0 confirmedClient)) = 5"
    using stale_snapshot_applied [OF t t' _ nz] gt
    by (simp add: confirmedClient_eval) (simp add: staleSnapshot0_def)
  with t t' nz show ?thesis by simp
qed

text \<open>
  The claim as stated fails: after a snapshot for tick 1 the client receives one for
  tick 0, and both \<open>serverState\<close> and the predicted state change.
\<close>

theorem stale_snapshot_counterexample:
  "state.tick (serverState confirmedClient) = Some 1 \<and>
   state.tick staleSnapshot0 = Some 0 \<and>
   serverState (onServerSnapshot staleSnapshot0 confirmedClient) \<noteq> serverState confirmedClient \<and>
   predictedState (onServerSnapshot staleSnapshot0 confirmedClient) \<noteq> predictedState confirmedClient"
proof -
  have d: "calculateDivergence (predictedState confirmedClient) staleSnapshot0 = 5"
    by (simp add: calculateDivergence_same_y confirmedClient_eval staleSnapshot0_def)
  have gt: "reconciliationThreshold confirmedClient
              < calculateDivergence (predictedState confirmedClient) staleSnapshot0"
    by (simp add: d) (simp add: confirmedClient_eval)
  have p: "predictedState (onServerSnapshot staleSnapshot0 confirmedClient) = staleSnapshot0"
    by (simp add: predictedState_onServerSnapshot_rollback [OF gt])
       (simp add: confirmedClient_eval)
  show ?thesis
    by (simp add: p serverState_onServerSnapshot)
       (simp add: confirmedClient_eval staleSnapshot0_def exactSnapshot1_def)
qed

subsection \<open>Pruning the input buffer\<close>

text \<open>
  Claim C8 (monotonic pruning): after \<open>onServerSnapshot\<close> has processed a snapshot with
  tick \<open>T\<close>, the input buffer holds no entry with tick at most \<open>T\<close>, whichever branch
  (blend or rollback) was taken.
\<close>

theorem monotonic_pruning:
  assumes "tick snapshot = Some T"
  shows "\<forall>b \<in> set (inputBuffer (onServerSnapshot snapshot c)). \<not> buffered.tick b \<le> T"
  using assms by (auto simp: inputBuffer_onServerSnapshot tickAfter_def)

theorem monotonic_pruning_witness:
  "state.tick blendSnapshot = Some 0 \<and>
   inputBuffer (onServerSnapshot blendSnapshot twoInputs) =
     [\<lparr>buffered.tick = 1, input = right, timestamp = 1016\<rparr>] \<and>
   \<not> buffered.tick \<lparr>buffered.tick = 1, input = right, timestamp = 1016\<rparr> \<le> 0"
proof -
  have t: "state.tick blendSnapshot = Some 0" by (simp add: blendSnapshot_def)
  have b: "inputBuffer (onServerSnapshot blendSnapshot twoInputs) =
     [\<lparr>buffered.tick = 1, input = right, timestamp = 1016\<rparr>]"
    by (simp add: inputBuffer_onServerSnapshot twoInputs_eval blendSnapshot_def tickAfter_def)
  show ?thesis
    using monotonic_pruning [OF t, of twoInputs] t b by simp
qed

subsection \<open>The smooth correction\<close>

text \<open>
  Claim C10: when the divergence is at most \<open>reconciliationThreshold\<close> (the branch of
  \<open>smoothCorrection\<close>), \<open>onServerSnapshot\<close> changes only the fields \<open>x\<close> and \<open>y\<close> of the
  predicted state; \<open>velocityX\<close> and \<open>velocityY\<close> keep the values they had before the call.
\<close>

theorem smooth_correction_frame:
  assumes "calculateDivergence (predictedState c) snapshot \<le> reconciliationThreshold c"
  shows "(\<exists>x' y'. predictedState (onServerSnapshot snapshot c) =
            (predictedState c)\<lparr>x := x', y := y'\<rparr>) \<and>
         velocityX (predictedState (onServerSnapshot snapshot c)) = velocityX (predictedState c) \<and>
         velocityY (predictedState (onServerSnapshot snapshot c)) = velocityY (predictedState c) \<and>
         state.tick (predictedState (onServerSnapshot snapshot c)) = state.tick (predictedState c)"
  by (simp add: predictedState_onServerSnapshot_blend [OF assms]) blast

theorem smooth_correction_frame_witness:
  "calculateDivergence (predictedState blendClient) blendSnapshot
     \<le> reconciliationThreshold blendClient \<and>
   velocityX (predictedState (onServerSnapshot blendSnapshot blendClient)) = 5 \<and>
   velocityY (predictedState (onServerSnapshot blendSnapshot blendClient)) = 0"
proof -
  have d: "calculateDivergence (predictedState blendClient) blendSnapshot
             \<le> reconciliationThreshold blendClient"
    by (simp add: blend_divergence) (simp add: blendClient_def)
  show ?thesis
    using smooth_correction_frame [OF d] d
    by (simp add: blendClient_def twoInputs_eval)
qed

text \<open>
  Claim C9 (blend scenario), as amended. With speed 5 and \<open>reconciliationThreshold\<close> 5,
  after \<open>applyInput\<close> of \<open>{moveX: 1, moveY: 0}\<close> at ticks 0 and 1 the predicted x is 10; a
  snapshot for tick 0 with x = 9.5 has divergence 0.5, within the threshold, so the blend
  branch is taken. The blend factor is \<open>min(0.5 / 5, 1) * 0.1\<close>, that is 1 percent, and the
  corrected predicted x is 9.995: not a hard snap to 9.5. The buffer keeps the input of
  tick 1.
\<close>

theorem blend_scenario:
  "calculateDivergence (predictedState blendClient) blendSnapshot = 1 / 2 \<and>
   calculateDivergence (predictedState blendClient) blendSnapshot
     \<le> reconciliationThreshold blendClient \<and>
   blendFactor (calculateDivergence (predictedState blendClient) blendSnapshot)
      (reconciliationThreshold blendClient) = 1 / 100 \<and>
   predictedState (onServerSnapshot blendSnapshot blendClient) =
     \<lparr>x = 1999 / 200, y = 0, velocityX = 5, velocityY = 0, tick = None\<rparr> \<and>
   x (predictedState (onServerSnapshot blendSnapshot blendClient)) \<noteq> x blendSnapshot \<and>
   map buffered.tick (inputBuffer (onServerSnapshot blendSnapshot blendClient)) = [1]"
proof -
  have d: "calculateDivergence (predictedState blendClient) blendSnapshot
             \<le> reconciliationThreshold blendClient"
    by (simp add: blend_divergence) (simp add: blendClient_def)
  have b: "blendFactor (calculateDivergence (predictedState blendClient) blendSnapshot)
      (reconciliationThreshold blendClient) = 1 / 100"
    by (simp add: blend_divergence) (simp add: blendClient_def blendFactor_def)
  have p: "predictedState (onServerSnapshot blendSnapshot blendClient) =
     \<lparr>x = 1999 / 200, y = 0, velocityX = 5, velocityY = 0, tick = None\<rparr>"
    by (simp add: predictedState_onServerSnapshot_blend [OF d] b)
       (simp add: blendClient_def twoInputs_eval blendSnapshot_def)
  have i: "map buffered.tick (inputBuffer (onServerSnapshot blendSnapshot blendClient)) = [1]"
    by (simp add: inputBuffer_onServerSnapshot blendClient_def twoInputs_eval blendSnapshot_def
        tickAfter_def)
  show ?thesis
    using d b i by (simp add: p blend_divergence) (simp add: blendSnapshot_def)
qed

text \<open>
  The figures of the claim, a blend factor of 5 percent and a corrected x of about 9.975,
  are not what the scenario gives: the result is 0.02 away from 9.975.
\<close>

theorem blend_scenario_counterexample:
  "blendFactor (calculateDivergence (predictedState blendClient) blendSnapshot)
      (reconciliationThreshold blendClient) = 1 / 100 \<and>
   x (predictedState (onServerSnapshot blendSnapshot blendClient)) = 1999 / 200 \<and>
   \<bar>x (predictedState (onServerSnapshot blendSnapshot blendClient)) - 9975 / 1000\<bar> = 2 / 100"
proof -
  have d: "calculateDivergence (predictedState blendClient) blendSnapshot
             \<le> reconciliationThreshold blendClient"
    by (simp add: blend_divergence) (simp add: blendClient_def)
  have b: "blendFactor (calculateDivergence (predictedState blendClient) blendSnapshot)
      (reconciliationThreshold blendClient) = 1 / 100"
    by (simp add: blend_divergence) (simp add: blendClient_def blendFactor_def)
  have "x (predictedState (onServerSnapshot blendSnapshot blendClient)) = 1999 / 200"
    by (simp add: predictedState_onServerSnapshot_blend [OF d] b)
       (simp add: blendClient_def twoInputs_eval blendSnapshot_def)
  with b show ?thesis by simp
qed

section \<open>Theorems about NetworkProtocol\<close>

subsection \<open>Duplicate packets\<close>

lemma demoPacket_eval:
  "demoPacket = \<lparr>packet.type = CLIENT_INPUT, sequenceId = 0, payload = demoPayload,
                  requiresAck = True, timestamp = 1000\<rparr>"
  by (simp add: demoPacket_def createInput_def createPacket_def new_NetworkProtocol_def Let_def)

lemma demoReceiver_eval:
  "demoReceiver = new_NetworkProtocol\<lparr>receivedSequences := {|0|}\<rparr>"
  by (simp add: demoReceiver_def processPacket_def demoPacket_eval new_NetworkProtocol_def
      Let_def fcard_finsert_if fcard_fempty)

text \<open>
  Claim C4 (duplicate idempotence), as amended. For every packet whose \<open>sequenceId\<close> is
  already in \<open>receivedSequences\<close>, \<open>processPacket\<close> returns \<open>null\<close> and leaves every field
  of the receiver as it was. No ack packet is produced, also when the packet requires
  one: an ack is created only on the first receipt.
\<close>

theorem duplicate_dropped:
  assumes "packet.sequenceId pk |\<in>| receivedSequences s"
  shows "processPacket now pk s = (None, s)"
  using assms by (simp add: processPacket_def)

theorem duplicate_dropped_witness:
  "packet.sequenceId demoPacket |\<in>| receivedSequences demoReceiver \<and>
   processPacket 1050 demoPacket demoReceiver = (None, demoReceiver)"
proof -
  have d: "packet.sequenceId demoPacket |\<in>| receivedSequences demoReceiver"
    by (simp add: demoReceiver_eval demoPacket_eval)
  from duplicate_dropped [OF d] d show ?thesis by simp
qed

text \<open>
  The part of the claim about the ack fails: the first receipt of the packet returns its
  ack, the second returns \<open>null\<close>.
\<close>

theorem duplicate_ack_counterexample:
  "requiresAck demoPacket \<and>
   fst (processPacket 1020 demoPacket new_NetworkProtocol) =
     Some \<lparr>payload = demoPayload, ackPacket = Some (createAck 1020 (packet.sequenceId demoPacket))\<rparr> \<and>
   packet.sequenceId demoPacket |\<in>| receivedSequences demoReceiver \<and>
   fst (processPacket 1050 demoPacket demoReceiver) = None"
  by (simp add: demoReceiver_eval)
     (simp add: processPacket_def demoPacket_eval new_NetworkProtocol_def Let_def fcard_finsert_if fcard_fempty)

subsection \<open>One pass of the retransmission loop\<close>

lemma retransmitLoop_keys:
  "retransmitLoop now tmo maxR es = (kept, out, lost) \<Longrightarrow> fst ` set kept \<subseteq> fst ` set es"
proof (induction es arbitrary: kept out lost)
  case Nil
  then show ?case by simp
next
  case (Cons a es)
  obtain k e where a: "a = (k, e)" by (cases a)
  obtain kept' out' lost' where r: "retransmitLoop now tmo maxR es = (kept', out', lost')"
    by (cases "retransmitLoop now tmo maxR es")
  from Cons.IH [OF r] have "\<And>k' e'. (k', e') \<in> set kept' \<Longrightarrow> k' \<in> fst ` set es"
    by force
  with Cons.prems show ?case
    by (auto simp: a r Let_def split: if_splits)
qed

lemma retransmitLoop_lost:
  "retransmitLoop now tmo maxR es = (kept, out, lost) \<Longrightarrow> lost + length kept = length es"
proof (induction es arbitrary: kept out lost)
  case Nil
  then show ?case by simp
next
  case (Cons a es)
  obtain k e where a: "a = (k, e)" by (cases a)
  obtain kept' out' lost' where r: "retransmitLoop now tmo maxR es = (kept', out', lost')"
    by (cases "retransmitLoop now tmo maxR es")
  from Cons.IH [OF r] have "lost' + length kept' = length es" .
  with Cons.prems show ?case
    by (auto simp: a r Let_def split: if_splits)
qed

lemma retransmitLoop_wellFormed:
  "retransmitLoop now tmo maxR es = (kept, out, lost) \<Longrightarrow> wellFormed es \<Longrightarrow> wellFormed kept"
proof (induction es arbitrary: kept out lost)
  case Nil
  then show ?case by simp
next
  case (Cons a es)
  obtain k e where a: "a = (k, e)" by (cases a)
  obtain kept' out' lost' where r: "retransmitLoop now tmo maxR es = (kept', out', lost')"
    by (cases "retransmitLoop now tmo maxR es")
  from Cons.prems(2) have wf: "wellFormed es" and k: "k \<notin> fst ` set es"
    and ke: "packet.sequenceId (packet e) = k"
    by (auto simp: wellFormed_def a)
  from Cons.IH [OF r wf] have wf': "wellFormed kept'" .
  from retransmitLoop_keys [OF r] k have k': "k \<notin> fst ` set kept'" by auto
  from Cons.prems(1) wf' k' ke show ?case
    by (auto simp: a r Let_def wellFormed_def split: if_splits)
qed

lemma retransmitLoop_absent:
  "retransmitLoop now tmo maxR es = (kept, out, lost) \<Longrightarrow> wellFormed es \<Longrightarrow>
   k \<notin> fst ` set es \<Longrightarrow> returned k out = []"
proof (induction es arbitrary: kept out lost)
  case Nil
  then show ?case by (simp add: returned_def)
next
  case (Cons a es)
  obtain k' e where a: "a = (k', e)" by (cases a)
  obtain kept' out' lost' where r: "retransmitLoop now tmo maxR es = (kept', out', lost')"
    by (cases "retransmitLoop now tmo maxR es")
  from Cons.prems(2) have wf: "wellFormed es"
    and ke: "packet.sequenceId (packet e) = k'"
    by (auto simp: wellFormed_def a)
  from Cons.prems(3) have ne: "k' \<noteq> k" and k: "k \<notin> fst ` set es" by (auto simp: a)
  from Cons.IH [OF r wf k] have "returned k out' = []" .
  with Cons.prems(1) ne ke show ?case
    by (auto simp: a r Let_def returned_def split: if_splits)
qed

text \<open>The fate of one entry in one pass of the loop.\<close>

lemma retransmitLoop_entry:
  assumes "retransmitLoop now tmo maxR es = (kept, out, lost)"
    and "wellFormed es" and "map_of es k = Some e"
  shows "(if now - pending.timestamp e > tmo then
            if retries e < maxR
            then map_of kept k = Some (e\<lparr>retries := retries e + 1, pending.timestamp := now\<rparr>) \<and>
                 returned k out = [packet e]
            else k \<notin> fst ` set kept \<and> returned k out = []
          else map_of kept k = Some e \<and> returned k out = [])"
  using assms
proof (induction es arbitrary: kept out lost)
  case Nil
  then show ?case by simp
next
  case (Cons a es)
  obtain k' e' where a: "a = (k', e')" by (cases a)
  obtain kept' out' lost' where r: "retransmitLoop now tmo maxR es = (kept', out', lost')"
    by (cases "retransmitLoop now tmo maxR es")
  from Cons.prems(2) have wf: "wellFormed es" and k': "k' \<notin> fst ` set es"
    and ke: "packet.sequenceId (packet e') = k'"
    by (auto simp: wellFormed_def a)
  show ?case
  proof (cases "k' = k")
    case True
    with Cons.prems(3) have e: "e' = e" by (simp add: a)
    from k' True have "k \<notin> fst ` set es" by simp
    from retransmitLoop_absent [OF r wf this] retransmitLoop_keys [OF r] this
    have "returned k out' = []" and "k \<notin> fst ` set kept'" by auto
    with Cons.prems(1) True e ke show ?thesis
      by (auto simp: a r Let_def returned_def split: if_splits)
  next
    case False
    with Cons.prems(3) have m: "map_of es k = Some e" by (simp add: a)
    from Cons.IH [OF r wf m] Cons.prems(1) False ke show ?thesis
      by (auto simp: a r Let_def returned_def split: if_splits)
  qed
qed

subsection \<open>One sweep\<close>

lemma getRetransmissions_fields:
  assumes "getRetransmissions now s = (out, s1)"
  shows "ackTimeout s1 = ackTimeout s" and "maxRetries s1 = maxRetries s"
    and "nextSequenceId s1 = nextSequenceId s"
    and "receivedSequences s1 = receivedSequences s"
  using assms by (auto simp: getRetransmissions_def Let_def split: prod.splits)

lemma getRetransmissions_loop:
  assumes "getRetransmissions now s = (out, s1)"
  shows "\<exists>lost. retransmitLoop now (ackTimeout s) (maxRetries s) (pendingAcks s)
                  = (pendingAcks s1, out, lost) \<and> packetsLost s1 = packetsLost s + lost"
  using assms by (auto simp: getRetransmissions_def Let_def split: prod.splits)

lemma getRetransmissions_wellFormed:
  assumes "getRetransmissions now s = (out, s1)" and "wellFormed (pendingAcks s)"
  shows "wellFormed (pendingAcks s1)"
  using getRetransmissions_loop [OF assms(1)] retransmitLoop_wellFormed assms(2) by blast

lemma getRetransmissions_keys:
  assumes "getRetransmissions now s = (out, s1)"
  shows "fst ` set (pendingAcks s1) \<subseteq> fst ` set (pendingAcks s)"
  using getRetransmissions_loop [OF assms] retransmitLoop_keys by blast

lemma getRetransmissions_lost:
  assumes "getRetransmissions now s = (out, s1)"
  shows "packetsLost s1 + length (pendingAcks s1) = packetsLost s + length (pendingAcks s)"
proof -
  from getRetransmissions_loop [OF assms] obtain lost where
    l: "retransmitLoop now (ackTimeout s) (maxRetries s) (pendingAcks s) = (pendingAcks s1, out, lost)"
    and p: "packetsLost s1 = packetsLost s + lost" by blast
  from retransmitLoop_lost [OF l] p show ?thesis by simp
qed

lemma getRetransmissions_absent:
  assumes "getRetransmissions now s = (out, s1)" and "wellFormed (pendingAcks s)"
    and "k \<notin> fst ` set (pendingAcks s)"
  shows "returned k out = []"
  using getRetransmissions_loop [OF assms(1)] retransmitLoop_absent assms(2,3) by blast

lemma getRetransmissions_entry:
  assumes "getRetransmissions now s = (out, s1)" and "wellFormed (pendingAcks s)"
    and "map_of (pendingAcks s) k = Some e"
  shows "(if now - pending.timestamp e > ackTimeout s then
            if retries e < maxRetries s
            then map_of (pendingAcks s1) k =
                   Some (e\<lparr>retries := retries e + 1, pending.timestamp := now\<rparr>) \<and>
                 returned k out = [packet e]
            else k \<notin> fst ` set (pendingAcks s1) \<and> returned k out = []
          else map_of (pendingAcks s1) k = Some e \<and> returned k out = [])"
proof -
  from getRetransmissions_loop [OF assms(1)] obtain lost where
    l: "retransmitLoop now (ackTimeout s) (maxRetries s) (pendingAcks s) = (pendingAcks s1, out, lost)"
    by blast
  from retransmitLoop_entry [OF l assms(2,3)] show ?thesis .
qed

subsection \<open>Successive sweeps\<close>

lemma sweeps_Cons:
  assumes "sweeps (t # ts) s = (outs, s2)"
  obtains out s1 outs' where "getRetransmissions t s = (out, s1)"
    and "sweeps ts s1 = (outs', s2)" and "outs = out # outs'"
  using assms by (auto simp: Let_def split: prod.splits)

lemma sweeps_lost:
  "sweeps ts s = (outs, s2) \<Longrightarrow>
   packetsLost s2 + length (pendingAcks s2) = packetsLost s + length (pendingAcks s)"
proof (induction ts arbitrary: s outs)
  case Nil
  then show ?case by simp
next
  case (Cons t ts)
  from Cons.prems obtain out s1 outs' where g: "getRetransmissions t s = (out, s1)"
    and r: "sweeps ts s1 = (outs', s2)" by (rule sweeps_Cons)
  from Cons.IH [OF r] getRetransmissions_lost [OF g] show ?case by simp
qed

lemma sweeps_keys:
  "sweeps ts s = (outs, s2) \<Longrightarrow> fst ` set (pendingAcks s2) \<subseteq> fst ` set (pendingAcks s)"
proof (induction ts arbitrary: s outs)
  case Nil
  then show ?case by simp
next
  case (Cons t ts)
  from Cons.prems obtain out s1 outs' where g: "getRetransmissions t s = (out, s1)"
    and r: "sweeps ts s1 = (outs', s2)" by (rule sweeps_Cons)
  from Cons.IH [OF r] getRetransmissions_keys [OF g] show ?case by blast
qed

lemma sweeps_absent:
  "sweeps ts s = (outs, s2) \<Longrightarrow> wellFormed (pendingAcks s) \<Longrightarrow>
   k \<notin> fst ` set (pendingAcks s) \<Longrightarrow>
   map (returned k) outs = replicate (length ts) [] \<and> k \<notin> fst ` set (pendingAcks s2)"
proof (induction ts arbitrary: s outs)
  case Nil
  then show ?case by simp
next
  case (Cons t ts)
  from Cons.prems(1) obtain out s1 outs' where g: "getRetransmissions t s = (out, s1)"
    and r: "sweeps ts s1 = (outs', s2)" and o: "outs = out # outs'" by (rule sweeps_Cons)
  have wf: "wellFormed (pendingAcks s1)"
    using getRetransmissions_wellFormed [OF g Cons.prems(2)] .
  have k: "k \<notin> fst ` set (pendingAcks s1)"
    using getRetransmissions_keys [OF g] Cons.prems(3) by blast
  from Cons.IH [OF r wf k] getRetransmissions_absent [OF g Cons.prems(2,3)] o
  show ?case by simp
qed

text \<open>
  An entry with \<open>r\<close> retries whose sweeps are all late: its packet comes back in each of
  the next \<open>maxRetries - r\<close> sweeps, the sweep after those drops the entry, and no later
  sweep returns it.
\<close>

lemma sweeps_entry:
  "sweeps ts s = (outs, s2) \<Longrightarrow> wellFormed (pendingAcks s) \<Longrightarrow>
   map_of (pendingAcks s) k = Some e \<Longrightarrow>
   spaced (ackTimeout s) (pending.timestamp e) ts \<Longrightarrow>
   map (returned k) outs =
     replicate (min (length ts) (maxRetries s - retries e)) [packet e] @
     replicate (length ts - (maxRetries s - retries e)) [] \<and>
   (maxRetries s - retries e < length ts \<longrightarrow> k \<notin> fst ` set (pendingAcks s2))"
proof (induction ts arbitrary: s outs e)
  case Nil
  then show ?case by simp
next
  case (Cons t ts)
  from Cons.prems(1) obtain out s1 outs' where g: "getRetransmissions t s = (out, s1)"
    and r: "sweeps ts s1 = (outs', s2)" and o: "outs = out # outs'" by (rule sweeps_Cons)
  have wf: "wellFormed (pendingAcks s1)"
    using getRetransmissions_wellFormed [OF g Cons.prems(2)] .
  from Cons.prems(4) have late: "t - pending.timestamp e > ackTimeout s"
    and sp: "spaced (ackTimeout s) t ts" by simp_all
  note fate = getRetransmissions_entry [OF g Cons.prems(2,3)]
  show ?case
  proof (cases "retries e < maxRetries s")
    case True
    let ?e = "e\<lparr>retries := retries e + 1, pending.timestamp := t\<rparr>"
    from fate late True have m: "map_of (pendingAcks s1) k = Some ?e"
      and out: "returned k out = [packet e]" by simp_all
    have sp': "spaced (ackTimeout s1) (pending.timestamp ?e) ts"
      using sp getRetransmissions_fields(1) [OF g] by simp
    from Cons.IH [OF r wf m sp'] getRetransmissions_fields(2) [OF g]
    have ih: "map (returned k) outs' =
        replicate (min (length ts) (maxRetries s - (retries e + 1))) [packet e] @
        replicate (length ts - (maxRetries s - (retries e + 1))) []"
      and gone: "maxRetries s - (retries e + 1) < length ts \<longrightarrow> k \<notin> fst ` set (pendingAcks s2)"
      by simp_all
    from True obtain d where d: "maxRetries s - retries e = Suc d"
      by (metis Suc_diff_Suc)
    then have d': "maxRetries s - Suc (retries e) = d" by simp
    from ih gone show ?thesis
      by (simp add: o out d d')
  next
    case False
    from fate late False have k: "k \<notin> fst ` set (pendingAcks s1)"
      and out: "returned k out = []" by simp_all
    from sweeps_absent [OF r wf k] False show ?thesis
      by (simp add: o out)
  qed
qed

subsection \<open>The retransmission bound\<close>

lemma list_all_update:
  "list_all P al \<Longrightarrow> P (k, v) \<Longrightarrow> list_all P (AList.update k v al)"
  by (induction al) auto

lemma wellFormed_update:
  "wellFormed al \<Longrightarrow> packet.sequenceId (packet e) = k \<Longrightarrow> wellFormed (AList.update k e al)"
  by (simp add: wellFormed_def distinct_update list_all_update)

text \<open>Every operation of the protocol keeps \<open>pendingAcks\<close> well formed.\<close>

lemma wellFormed_new: "wellFormed (pendingAcks new_NetworkProtocol)"
  by (simp add: wellFormed_def new_NetworkProtocol_def)

lemma wellFormed_createPacket:
  "wellFormed (pendingAcks s) \<Longrightarrow> wellFormed (pendingAcks (snd (createPacket now ty pl req s)))"
  by (simp add: createPacket_def Let_def wellFormed_update)

lemma wellFormed_delete:
  "wellFormed al \<Longrightarrow> wellFormed (AList.delete k al)"
proof -
  assume wf: "wellFormed al"
  then have "distinct (map fst (AList.delete k al))"
    by (simp add: wellFormed_def distinct_delete)
  moreover have "set (AList.delete k al) \<subseteq> set al"
    by (auto simp: AList.delete_eq)
  ultimately show ?thesis
    using wf by (auto simp: wellFormed_def list_all_iff)
qed

lemma wellFormed_processAck:
  "wellFormed (pendingAcks s) \<Longrightarrow> wellFormed (pendingAcks (processAck sid s))"
  by (simp add: processAck_def wellFormed_delete)

lemma wellFormed_processPacket:
  "wellFormed (pendingAcks s) \<Longrightarrow> wellFormed (pendingAcks (snd (processPacket now pk s)))"
  by (simp add: processPacket_def Let_def)

lemma createPacket_tracked:
  assumes "createPacket t0 ty pl True s = (pk, s1)"
  shows "pk = \<lparr>packet.type = ty, sequenceId = nextSequenceId s, payload = pl,
               requiresAck = True, timestamp = t0\<rparr>"
    and "pendingAcks s1 = AList.update (nextSequenceId s)
           \<lparr>packet = pk, timestamp = t0, retries = 0\<rparr> (pendingAcks s)"
    and "ackTimeout s1 = ackTimeout s" and "maxRetries s1 = maxRetries s"
    and "packetsLost s1 = packetsLost s"
  using assms by (auto simp: createPacket_def Let_def)

lemma demo_created:
  "createPacket 1000 CLIENT_INPUT demoPayload True new_NetworkProtocol = (demoPacket, demoSender)"
  by (simp add: demoPacket_def demoSender_def createInput_def)

lemma demoSender_eval:
  "demoSender = new_NetworkProtocol\<lparr>nextSequenceId := 1,
     pendingAcks := [(0, \<lparr>packet = demoPacket, timestamp = 1000, retries = 0\<rparr>)]\<rparr>"
  by (simp add: demoSender_def demoPacket_eval createInput_def createPacket_def
      new_NetworkProtocol_def Let_def)

lemma demo_sweeps:
  "sweeps [1101, 1202, 1303, 1404, 1505] demoSender =
     ([[demoPacket], [demoPacket], [demoPacket], [], []],
      new_NetworkProtocol\<lparr>nextSequenceId := 1, packetsLost := 1\<rparr>)"
  by (simp add: demoSender_eval getRetransmissions_def new_NetworkProtocol_def Let_def)

text \<open>
  Claim C5 (retransmission bound). A packet is created with \<open>requiresAck\<close> at time \<open>t0\<close>
  and never acknowledged; \<open>getRetransmissions\<close> then runs at times \<open>ts\<close>, the first more
  than \<open>ackTimeout\<close> after \<open>t0\<close> and each more than \<open>ackTimeout\<close> after the one before.
  Each of the first \<open>maxRetries\<close> sweeps returns exactly that packet for its sequence id,
  and no later sweep returns any packet with that id: with more than \<open>maxRetries\<close>
  sweeps, the packet is returned \<open>maxRetries\<close> times in all and its entry is gone from
  \<open>pendingAcks\<close>. \<open>packetsLost\<close> grows by one for each entry the sweeps drop; when the
  packet was the only pending one, \<open>packetsLost\<close> ends one higher than it started.
\<close>

theorem retransmission_bound:
  assumes "wellFormed (pendingAcks s)"
    and "createPacket t0 ty pl True s = (pk, s1)"
    and "spaced (ackTimeout s) t0 ts"
    and "sweeps ts s1 = (outs, s2)"
  shows "map (returned (packet.sequenceId pk)) outs =
           replicate (min (length ts) (maxRetries s)) [pk] @
           replicate (length ts - maxRetries s) [] \<and>
         (maxRetries s < length ts \<longrightarrow>
            length (concat (map (returned (packet.sequenceId pk)) outs)) = maxRetries s \<and>
            packet.sequenceId pk \<notin> fst ` set (pendingAcks s2) \<and>
            (pendingAcks s = [] \<longrightarrow> packetsLost s2 = packetsLost s + 1)) \<and>
         packetsLost s2 + length (pendingAcks s2) = packetsLost s1 + length (pendingAcks s1)"
proof -
  let ?k = "packet.sequenceId pk"
  let ?e = "\<lparr>packet = pk, timestamp = t0, retries = 0\<rparr>"
  note c = createPacket_tracked [OF assms(2)]
  have k: "?k = nextSequenceId s" by (simp add: c(1))
  have p: "pendingAcks s1 = AList.update ?k ?e (pendingAcks s)" by (simp add: c(2) k)
  have wf: "wellFormed (pendingAcks s1)"
    unfolding p by (rule wellFormed_update [OF assms(1)]) simp
  have m: "map_of (pendingAcks s1) ?k = Some ?e"
    by (simp add: p update_conv')
  have sp: "spaced (ackTimeout s1) (pending.timestamp ?e) ts"
    using assms(3) by (simp add: c(3))
  from sweeps_entry [OF assms(4) wf m sp]
  have seq: "map (returned ?k) outs =
      replicate (min (length ts) (maxRetries s)) [pk] @ replicate (length ts - maxRetries s) []"
    and gone: "maxRetries s < length ts \<longrightarrow> ?k \<notin> fst ` set (pendingAcks s2)"
    by (simp_all add: c(4))
  have total: "length (concat (map (returned ?k) outs)) = maxRetries s"
    if "maxRetries s < length ts"
    using that by (simp add: seq length_concat)
  have cons: "packetsLost s2 + length (pendingAcks s2) = packetsLost s1 + length (pendingAcks s1)"
    by (rule sweeps_lost [OF assms(4)])
  have one: "packetsLost s2 = packetsLost s + 1"
    if "maxRetries s < length ts" and "pendingAcks s = []"
  proof -
    have "pendingAcks s1 = [(?k, ?e)]" by (simp add: p that(2))
    with sweeps_keys [OF assms(4)] have "fst ` set (pendingAcks s2) \<subseteq> {?k}" by simp
    then have "\<And>a. a \<in> set (pendingAcks s2) \<Longrightarrow> fst a = ?k" by auto
    moreover from gone that(1) have "\<And>a. a \<in> set (pendingAcks s2) \<Longrightarrow> fst a \<noteq> ?k"
      by (metis imageI)
    ultimately have "pendingAcks s2 = []" by (cases "pendingAcks s2") auto
    with cons \<open>pendingAcks s1 = [(?k, ?e)]\<close> show ?thesis by (simp add: c(5))
  qed
  show ?thesis
    using gone total one by (intro conjI impI seq cons) simp_all
qed

theorem retransmission_bound_witness:
  "wellFormed (pendingAcks (new_NetworkProtocol :: buffered NetworkProtocol)) \<and>
   createPacket 1000 CLIENT_INPUT demoPayload True new_NetworkProtocol = (demoPacket, demoSender) \<and>
   spaced (ackTimeout (new_NetworkProtocol :: buffered NetworkProtocol)) 1000
     [1101, 1202, 1303, 1404, 1505] \<and>
   sweeps [1101, 1202, 1303, 1404, 1505] demoSender =
     ([[demoPacket], [demoPacket], [demoPacket], [], []],
      new_NetworkProtocol\<lparr>nextSequenceId := 1, packetsLost := 1\<rparr>) \<and>
   map (returned (packet.sequenceId demoPacket))
       [[demoPacket], [demoPacket], [demoPacket], [], []] =
     [[demoPacket], [demoPacket], [demoPacket], [], []] \<and>
   packetsLost (new_NetworkProtocol\<lparr>nextSequenceId := 1, packetsLost := 1\<rparr>
                  :: buffered NetworkProtocol) = 0 + 1"
proof -
  have wf: "wellFormed (pendingAcks (new_NetworkProtocol :: buffered NetworkProtocol))"
    by (simp add: wellFormed_def new_NetworkProtocol_def)
  have sp: "spaced (ackTimeout (new_NetworkProtocol :: buffered NetworkProtocol)) 1000
     [1101, 1202, 1303, 1404, 1505]"
    by (simp add: new_NetworkProtocol_def)
  from retransmission_bound [OF wf demo_created sp demo_sweeps]
  have "map (returned (packet.sequenceId demoPacket))
       [[demoPacket], [demoPacket], [demoPacket], [], []] =
     [[demoPacket], [demoPacket], [demoPacket], [], []]"
    by (simp add: new_NetworkProtocol_def numeral_3_eq_3)
  with wf sp demo_created demo_sweeps show ?thesis by simp
qed

section \<open>Theorems about TimeSync\<close>

subsection \<open>The reliability predicate\<close>

lemma syncCount_createSyncRequest:
  "syncCount (snd (createSyncRequest now t)) = syncCount t + 1"
  by (simp add: createSyncRequest_def Let_def)

lemma syncCount_processSyncResponse:
  "syncCount (processSyncResponse now nowDrift response t) = syncCount t"
  by (simp add: processSyncResponse_def updateRttStats_def updateClockOffset_def
      updateClockDrift_def Let_def)

lemma syncCount_runSync:
  "syncCount (runSync calls t) = syncCount t + requestsCreated calls"
proof (induction calls arbitrary: t)
  case Nil
  show ?case by (simp add: runSync_def requestsCreated_def)
next
  case (Cons a calls)
  have "runSync (a # calls) t = runSync calls (syncStep t a)" by (simp add: runSync_def)
  then show ?case
    using Cons.IH [of "syncStep t a"]
    by (cases a)
       (simp_all add: requestsCreated_def syncCount_createSyncRequest syncCount_processSyncResponse)
qed

text \<open>
  Claim C6 (sync reliability predicate), as amended. \<open>isSyncReliable()\<close> returns true if
  and only if the quality score exceeds 0.5 and \<open>syncCount\<close> exceeds 3, where \<open>syncCount\<close>
  is the number of sync requests the object has created: \<open>createSyncRequest\<close> increments
  it and \<open>processSyncResponse\<close> leaves it as it is. On an object that started fresh, the
  predicate holds exactly when the quality exceeds 0.5 and at least 4 requests have been
  created, however many responses have been processed.
\<close>

theorem sync_reliable_counts_requests:
  "(isSyncReliable (runSync calls (new_TimeSync now cfg)) \<longleftrightarrow>
      calculateQuality (runSync calls (new_TimeSync now cfg)) > 0.5 \<and>
      4 \<le> requestsCreated calls) \<and>
   syncCount (snd (createSyncRequest now' t)) = syncCount t + 1 \<and>
   syncCount (processSyncResponse now' nowDrift response t) = syncCount t"
proof -
  have "syncCount (new_TimeSync now cfg) = 0" by (simp add: new_TimeSync_def Let_def)
  then have "syncCount (runSync calls (new_TimeSync now cfg)) = requestsCreated calls"
    by (simp add: syncCount_runSync)
  then show ?thesis
    by (auto simp: isSyncReliable_def syncCount_createSyncRequest syncCount_processSyncResponse)
qed

text \<open>
  With the count read as the number of responses processed the claim fails: after four
  requests and no response the predicate is true, with no sample collected.
\<close>

theorem sync_reliable_counterexample:
  "isSyncReliable (runSync fourRequests (new_TimeSync 0 demoConfig)) \<and>
   responsesProcessed fourRequests = 0 \<and>
   rttHistory (runSync fourRequests (new_TimeSync 0 demoConfig)) = []"
  by (simp add: fourRequests_def runSync_def responsesProcessed_def isSyncReliable_def
      calculateQuality_def createSyncRequest_def new_TimeSync_def Let_def)

subsection \<open>The clock offset\<close>

lemma clockOffset_processSyncResponse:
  "clockOffset (processSyncResponse now nowDrift response t) =
     clockOffset (updateClockOffset (rawOffset now response) t)"
  by (simp add: processSyncResponse_def updateRttStats_def updateClockOffset_def
      updateClockDrift_def rawOffset_def Let_def)

text \<open>
  \<open>updateClockOffset\<close> recognises the first measurement by \<open>clockOffset === 0\<close>: a sample
  is assigned outright whenever the stored offset is exactly 0, and blended otherwise.
\<close>

lemma clockOffset_updateClockOffset:
  "clockOffset (updateClockOffset newOffset t) =
     (if clockOffset t = 0 then newOffset
      else clockOffset t + (newOffset - clockOffset t) *
             (if \<bar>newOffset - clockOffset t\<bar> > 50 then 0.5 else 0.1))"
  by (simp add: updateClockOffset_def Let_def)

text \<open>
  Claim C7 (clock offset blending): the first offset sample is assigned to \<open>clockOffset\<close>
  outright, and every later sample moves \<open>clockOffset\<close> by the fraction 0.5 or 0.1 of its
  distance to the sample. The code departs from this for a later sample that finds
  \<open>clockOffset\<close> at exactly 0. Here the first exchange measures offset 0 and the second
  measures 30: the second sample is assigned outright, \<open>clockOffset\<close> becomes 30 where
  blending from 0 gives 3.
\<close>

theorem clock_offset_zero_sample_unblended:
  "rawOffset 1020 inSyncResponse = 0 \<and>
   clockOffset (runSync (take 2 twoSyncs) (new_TimeSync 0 demoConfig)) = 0 \<and>
   rawOffset 2020 shiftedResponse = 30 \<and>
   clockOffset (runSync twoSyncs (new_TimeSync 0 demoConfig)) = 30 \<and>
   clockOffset (runSync twoSyncs (new_TimeSync 0 demoConfig)) \<noteq>
     0 + (30 - 0) * (1 / 10)"
proof -
  have r1: "rawOffset 1020 inSyncResponse = 0"
    by (simp add: rawOffset_def inSyncResponse_def)
  have r2: "rawOffset 2020 shiftedResponse = 30"
    by (simp add: rawOffset_def shiftedResponse_def)
  have c0: "clockOffset (snd (createSyncRequest n t)) = clockOffset t" for n t
    by (simp add: createSyncRequest_def Let_def)
  have i: "clockOffset (new_TimeSync 0 demoConfig) = 0"
    by (simp add: new_TimeSync_def Let_def)
  have a: "clockOffset (runSync (take 2 twoSyncs) (new_TimeSync 0 demoConfig)) = 0"
    by (simp add: twoSyncs_def runSync_def clockOffset_processSyncResponse
        clockOffset_updateClockOffset c0 i r1)
  have b: "clockOffset (runSync twoSyncs (new_TimeSync 0 demoConfig)) = 30"
    by (simp add: twoSyncs_def runSync_def clockOffset_processSyncResponse
        clockOffset_updateClockOffset c0 i r1 r2)
  from r1 r2 a b show ?thesis by simp
qed

end
